theory Spec2Isabelle
  imports Main
begin

section \<open>Python values, exceptions and the operating system\<close>

text \<open>
  The development embeds \<^verbatim>\<open>pwnlib/tubes/process.py\<close>: the class \<^verbatim>\<open>process\<close>, a tube
  over a child process. Exceptions are values: every operation returns its result
  (\<open>Inl\<close> an exception, \<open>Inr\<close> a value) together with the handle it leaves behind, since
  a method that raises may have changed the handle before.
\<close>

type_synonym bytes = string

text \<open>The messages handed to \<^verbatim>\<open>log.error\<close>, with the values formatted into them.\<close>

datatype pyobj = Str string | Bytes string | NonString

datatype message =
    Argv_must_only_contain "pyobj list"
  | Inappropriate_nulls_in_argv nat pyobj
  | Must_specify_argv_or_executable
  | Does_not_exist string
  | Is_not_a_file string
  | Is_not_marked_as_executable string
  | Environment_keys_must_be pyobj
  | Environment_values_must_be pyobj pyobj
  | Inappropriate_null_byte_in_env_key pyobj
  | Inappropriate_null_byte_in_env_value pyobj pyobj
  | Cannot_use_leaker_under_QEMU

text \<open>
  \<open>OSError errno strerror\<close> is also Python 3's \<^verbatim>\<open>IOError\<close> (the same class).
  \<open>SelectError\<close> stands for a \<^verbatim>\<open>select.error\<close> that is not an \<^verbatim>\<open>OSError\<close>, as in
  Python before 3.3; since 3.3 \<^verbatim>\<open>select.error\<close> is \<^verbatim>\<open>OSError\<close> itself.
\<close>

datatype exc =
    EOFError
  | OSError nat string
  | SelectError nat
  | AttributeError
  | TypeError
  | ValueError
  | PwnlibException message
  | OtherException string

definition ENOEXEC :: nat where
  "ENOEXEC = 8"

definition EINTR :: nat where
  "EINTR = 4"

datatype pyval = PyNone | PyBool bool

fun truthy :: "pyval \<Rightarrow> bool" where
  "truthy PyNone = False"
| "truthy (PyBool b) = b"

text \<open>
  A \<^verbatim>\<open>subprocess.Popen\<close> object. Each of the three stream attributes is \<open>None\<close> (no
  file object: the stream was not a pipe or pty) or \<open>Some c\<close>, a file object whose
  \<^verbatim>\<open>closed\<close> flag is \<open>c\<close>.
\<close>

record popen =
  pid :: nat
  stdin :: "bool option"
  stdout :: "bool option"
  stderr :: "bool option"
  returncode :: "int option"

text \<open>The messages of \<^verbatim>\<open>self.info\<close>: the program and, for the first, its exit code.\<close>

datatype notice = Stopped_with_exit_code string int | Stopped_program string

record process =
  proc :: "popen option"
  stop_noticed :: bool
  executable :: string
  timeout :: "nat option"
  infos :: "notice list"

text \<open>
  What the operating system answers during one call. \<open>os_waitpid\<close> lists the answers
  of the successive non-blocking status checks (\<open>None\<close>: the child still runs); when the
  list is used up the child is seen running ever after. \<open>os_select\<close> is the outcome of
  \<^verbatim>\<open>select.select\<close> on stdout for a timeout (\<open>Inr True\<close>: stdout is reported readable),
  \<open>os_read\<close> the outcome of one \<^verbatim>\<open>read(numb)\<close> (\<open>Inr None\<close>: Python's \<^verbatim>\<open>None\<close>),
  \<open>os_write\<close> that of write and flush. \<^verbatim>\<open>os.kill\<close> and the blocking wait raise nothing
  but \<^verbatim>\<open>OSError\<close>, given as errno and text.
\<close>

record os =
  os_waitpid :: "int option list"
  os_select :: "nat option \<Rightarrow> exc + bool"
  os_read :: "nat \<Rightarrow> exc + bytes option"
  os_write :: "bytes \<Rightarrow> exc + unit"
  os_kill :: "(nat \<times> string) option"
  os_wait :: "(nat \<times> string) + int"

type_synonym 'a res = "(exc + 'a) \<times> os \<times> process"

definition handle :: "'a res \<Rightarrow> process" where
  "handle r = snd (snd r)"

section \<open>The standard library's Popen\<close>

text \<open>
  \<^verbatim>\<open>Popen.poll\<close> asks the system only while no return code is known; \<^verbatim>\<open>Popen.kill\<close>
  sends no signal to a child already reaped; \<^verbatim>\<open>Popen.wait\<close> returns the known code or
  waits for one.
\<close>

definition Popen_poll :: "os \<Rightarrow> popen \<Rightarrow> os \<times> popen" where
  "Popen_poll w p =
     (if returncode p \<noteq> None then (w, p)
      else case os_waitpid w of
             [] \<Rightarrow> (w, p)
           | st # rest \<Rightarrow> (w\<lparr>os_waitpid := rest\<rparr>, p\<lparr>returncode := st\<rparr>))"

definition Popen_kill :: "os \<Rightarrow> popen \<Rightarrow> exc + unit" where
  "Popen_kill w p =
     (if returncode p \<noteq> None then Inr ()
      else case os_kill w of None \<Rightarrow> Inr () | Some (n, m) \<Rightarrow> Inl (OSError n m))"

definition Popen_wait :: "os \<Rightarrow> popen \<Rightarrow> exc + popen" where
  "Popen_wait w p =
     (if returncode p \<noteq> None then Inr p
      else case os_wait w of
             Inl (n, m) \<Rightarrow> Inl (OSError n m)
           | Inr rc \<Rightarrow> Inr (p\<lparr>returncode := Some rc\<rparr>))"

text \<open>\<^verbatim>\<open>f.closed\<close> and \<^verbatim>\<open>f.close()\<close> on an attribute that may be \<^verbatim>\<open>None\<close>.\<close>

definition closed :: "bool option \<Rightarrow> exc + bool" where
  "closed f = (case f of None \<Rightarrow> Inl AttributeError | Some c \<Rightarrow> Inr c)"

definition file_close :: "bool option \<Rightarrow> exc + bool option" where
  "file_close f = (case f of None \<Rightarrow> Inl AttributeError | Some c \<Rightarrow> Inr (Some True))"

section \<open>Lifecycle: poll\<close>

text \<open>
  \<^verbatim>\<open>poll(block=False)\<close>, lines 510 to 517: refresh the return code, notice the stop once,
  return the code. \<^verbatim>\<open>self.proc.poll()\<close> on a handle that was never spawned raises
  \<^verbatim>\<open>AttributeError\<close>.
\<close>

definition poll_nonblocking :: "os \<Rightarrow> process \<Rightarrow> (int option) res" where
  "poll_nonblocking w s =
     (case proc s of
        None \<Rightarrow> (Inl AttributeError, w, s)
      | Some p \<Rightarrow>
          (case Popen_poll w p of
             (w', p') \<Rightarrow>
               (case returncode p' of
                  None \<Rightarrow> (Inr None, w', s\<lparr>proc := Some p'\<rparr>)
                | Some rc \<Rightarrow>
                    if \<not> stop_noticed s
                    then (Inr (Some rc), w',
                          s\<lparr>proc := Some p', stop_noticed := True,
                            infos := infos s @ [Stopped_with_exit_code (executable s) rc]\<rparr>)
                    else (Inr (Some rc), w', s\<lparr>proc := Some p'\<rparr>))))"

section \<open>Raw tube primitives\<close>

definition connected_raw :: "string \<Rightarrow> os \<Rightarrow> process \<Rightarrow> pyval res" where
  "connected_raw direction w s =
     (if direction = ''any'' then
        (case poll_nonblocking w s of
           (Inl e, w', s') \<Rightarrow> (Inl e, w', s')
         | (Inr r, w', s') \<Rightarrow> (Inr (PyBool (r = None)), w', s'))
      else if direction = ''send'' then
        (case proc s of
           None \<Rightarrow> (Inl AttributeError, w, s)
         | Some p \<Rightarrow>
             (case closed (stdin p) of
                Inl e \<Rightarrow> (Inl e, w, s)
              | Inr c \<Rightarrow> (Inr (PyBool (\<not> c)), w, s)))
      else if direction = ''recv'' then
        (case proc s of
           None \<Rightarrow> (Inl AttributeError, w, s)
         | Some p \<Rightarrow>
             (case closed (stdout p) of
                Inl e \<Rightarrow> (Inl e, w, s)
              | Inr c \<Rightarrow> (Inr (PyBool (\<not> c)), w, s)))
      else (Inr PyNone, w, s))"

text \<open>
  \<^verbatim>\<open>can_recv_raw\<close>: a handle whose stdout is closed is not ready. The first handler
  turns an \<^verbatim>\<open>OSError\<close> of \<^verbatim>\<open>select\<close> into \<^verbatim>\<open>EOFError\<close>; the second answers
  \<^verbatim>\<open>False\<close> to an interrupted \<^verbatim>\<open>select.error\<close> and falls off the end of the method
  (\<^verbatim>\<open>None\<close>) for any other one; every other exception goes to the caller.
\<close>

definition can_recv_raw :: "nat option \<Rightarrow> os \<Rightarrow> process \<Rightarrow> pyval res" where
  "can_recv_raw tmo w s =
     (case connected_raw ''recv'' w s of
        (Inl e, w', s') \<Rightarrow> (Inl e, w', s')
      | (Inr c, w', s') \<Rightarrow>
          if \<not> truthy c then (Inr (PyBool False), w', s')
          else
            (case (if tmo = None then os_select w' None else os_select w' tmo) of
               Inr b \<Rightarrow> (Inr (PyBool b), w', s')
             | Inl e \<Rightarrow>
                 (case e of
                    OSError n m \<Rightarrow> (Inl EOFError, w', s')
                  | SelectError n \<Rightarrow>
                      if n = EINTR then (Inr (PyBool False), w', s')
                      else (Inr PyNone, w', s')
                  | _ \<Rightarrow> (Inl e, w', s'))))"

section \<open>Lifecycle: close\<close>

text \<open>\<^verbatim>\<open>if fd is not None: fd.close()\<close>\<close>

definition close_if_present :: "bool option \<Rightarrow> bool option" where
  "close_if_present f = (case f of None \<Rightarrow> None | Some c \<Rightarrow> Some True)"

text \<open>\<^verbatim>\<open>except OSError: pass\<close> around the kill and the wait of \<^verbatim>\<open>close\<close>.\<close>

definition except_OSError_pass :: "exc \<Rightarrow> os \<Rightarrow> process \<Rightarrow> unit res" where
  "except_OSError_pass e w s =
     (case e of OSError n m \<Rightarrow> (Inr (), w, s) | _ \<Rightarrow> (Inl e, w, s))"

definition close :: "os \<Rightarrow> process \<Rightarrow> unit res" where
  "close w s =
     (case proc s of
        None \<Rightarrow> (Inr (), w, s)
      | Some p0 \<Rightarrow>
          (case poll_nonblocking w s of
             (Inl e, w1, s1) \<Rightarrow> (Inl e, w1, s1)
           | (Inr r, w1, s1) \<Rightarrow>
               (case proc s1 of
                  None \<Rightarrow> (Inl AttributeError, w1, s1)
                | Some p1 \<Rightarrow>
                    (let p2 = p1\<lparr>stdin := close_if_present (stdin p1),
                                 stdout := close_if_present (stdout p1),
                                 stderr := close_if_present (stderr p1)\<rparr>;
                         s2 = s1\<lparr>proc := Some p2\<rparr>
                     in if \<not> stop_noticed s2 then
                          (case Popen_kill w1 p2 of
                             Inl e \<Rightarrow> except_OSError_pass e w1 s2
                           | Inr u \<Rightarrow>
                               (case Popen_wait w1 p2 of
                                  Inl e \<Rightarrow> except_OSError_pass e w1 s2
                                | Inr p3 \<Rightarrow>
                                    (Inr (), w1,
                                     s2\<lparr>proc := Some p3, stop_noticed := True,
                                        infos := infos s2 @ [Stopped_program (executable s2)]\<rparr>)))
                        else (Inr (), w1, s2)))))"

text \<open>\<^verbatim>\<open>kill\<close> is \<^verbatim>\<open>close\<close>.\<close>

definition kill :: "os \<Rightarrow> process \<Rightarrow> unit res" where
  "kill w s = close w s"

section \<open>Shutdown, receive and send\<close>

definition close_stream_if :: "bool \<Rightarrow> bool option \<Rightarrow> exc + bool option" where
  "close_stream_if c f = (if c then file_close f else Inr f)"

definition shutdown_raw :: "string \<Rightarrow> os \<Rightarrow> process \<Rightarrow> unit res" where
  "shutdown_raw direction w s =
     (case proc s of
        None \<Rightarrow> (Inl AttributeError, w, s)
      | Some p \<Rightarrow>
          (case close_stream_if (direction = ''send'') (stdin p) of
             Inl e \<Rightarrow> (Inl e, w, s)
           | Inr f_in \<Rightarrow>
               (let p1 = p\<lparr>stdin := f_in\<rparr>; s1 = s\<lparr>proc := Some p1\<rparr> in
                case close_stream_if (direction = ''recv'') (stdout p1) of
                  Inl e \<Rightarrow> (Inl e, w, s1)
                | Inr f_out \<Rightarrow>
                    (let p2 = p1\<lparr>stdout := f_out\<rparr>; s2 = s1\<lparr>proc := Some p2\<rparr> in
                     case closed (stdin p2) of
                       Inl e \<Rightarrow> (Inl e, w, s2)
                     | Inr a \<Rightarrow>
                         (case closed (stdout p2) of
                            Inl e \<Rightarrow> (Inl e, w, s2)
                          | Inr b \<Rightarrow> if a \<and> b then close w s2 else (Inr (), w, s2))))))"

text \<open>
  Modelled from the spec: \<^verbatim>\<open>shutdown\<close> is a method of the tube base class, which is not
  in the sources. For the direction "recv" the spec has the recv direction shut down,
  that is \<^verbatim>\<open>shutdown_raw\<close> called with that direction.
\<close>

definition shutdown :: "string \<Rightarrow> os \<Rightarrow> process \<Rightarrow> unit res" where
  "shutdown direction w s = shutdown_raw direction w s"

text \<open>
  \<^verbatim>\<open>recv_raw\<close>. The read's \<^verbatim>\<open>IOError\<close> is passed over and leaves \<^verbatim>\<open>data\<close> at its
  initial \<^verbatim>\<open>b''\<close>; \<^verbatim>\<open>not data\<close> holds of \<^verbatim>\<open>b''\<close> and of \<^verbatim>\<open>None\<close>.
\<close>

definition read_stdout :: "nat \<Rightarrow> os \<Rightarrow> exc + bytes option" where
  "read_stdout numb w =
     (case os_read w numb of
        Inr d \<Rightarrow> Inr d
      | Inl e \<Rightarrow> (case e of OSError n m \<Rightarrow> Inr (Some []) | _ \<Rightarrow> Inl e))"

definition no_data :: "bytes option \<Rightarrow> bool" where
  "no_data d = (case d of None \<Rightarrow> True | Some b \<Rightarrow> b = [])"

definition recv_raw :: "nat \<Rightarrow> os \<Rightarrow> process \<Rightarrow> bytes res" where
  "recv_raw numb w s =
     (case poll_nonblocking w s of
        (Inl e, w1, s1) \<Rightarrow> (Inl e, w1, s1)
      | (Inr r, w1, s1) \<Rightarrow>
          (case connected_raw ''recv'' w1 s1 of
             (Inl e, w2, s2) \<Rightarrow> (Inl e, w2, s2)
           | (Inr c, w2, s2) \<Rightarrow>
               if \<not> truthy c then (Inl EOFError, w2, s2)
               else
                 (case can_recv_raw (timeout s2) w2 s2 of
                    (Inl e, w3, s3) \<Rightarrow> (Inl e, w3, s3)
                  | (Inr ready, w3, s3) \<Rightarrow>
                      if \<not> truthy ready then (Inr [], w3, s3)
                      else
                        (case read_stdout numb w3 of
                           Inl e \<Rightarrow> (Inl e, w3, s3)
                         | Inr d \<Rightarrow>
                             if no_data d then
                               (case shutdown ''recv'' w3 s3 of
                                  (Inl e, w4, s4) \<Rightarrow> (Inl e, w4, s4)
                                | (Inr u, w4, s4) \<Rightarrow> (Inl EOFError, w4, s4))
                             else (Inr (case d of None \<Rightarrow> [] | Some b \<Rightarrow> b), w3, s3)))))"

definition send_raw :: "bytes \<Rightarrow> os \<Rightarrow> process \<Rightarrow> unit res" where
  "send_raw data w s =
     (case poll_nonblocking w s of
        (Inl e, w1, s1) \<Rightarrow> (Inl e, w1, s1)
      | (Inr r, w1, s1) \<Rightarrow>
          (case connected_raw ''send'' w1 s1 of
             (Inl e, w2, s2) \<Rightarrow> (Inl e, w2, s2)
           | (Inr c, w2, s2) \<Rightarrow>
               if \<not> truthy c then (Inl EOFError, w2, s2)
               else
                 (case os_write w2 data of
                    Inr u \<Rightarrow> (Inr (), w2, s2)
                  | Inl e \<Rightarrow>
                      (case e of
                         OSError n m \<Rightarrow> (Inl EOFError, w2, s2)
                       | _ \<Rightarrow> (Inl e, w2, s2)))))"

section \<open>Blocking poll\<close>

text \<open>
  Modelled from the spec: \<^verbatim>\<open>wait_for_close\<close> and \<^verbatim>\<open>connected\<close> are methods of the tube
  base class, which is not in the sources. A blocking poll first waits for full closure:
  the wait asks \<^verbatim>\<open>connected_raw\<close> for the direction "any" until it answers no. While
  the child is seen running and the system has no further answer, the wait does not
  return: the value \<open>None\<close>.
\<close>

function wait_for_close :: "os \<Rightarrow> process \<Rightarrow> (unit res) option" where
  "wait_for_close w s =
     (case connected_raw ''any'' w s of
        (Inl e, w', s') \<Rightarrow> Some (Inl e, w', s')
      | (Inr c, w', s') \<Rightarrow>
          if truthy c then (if os_waitpid w = [] then None else wait_for_close w' s')
          else Some (Inr (), w', s'))"
  by pat_completeness auto

termination
  apply (relation "measure (\<lambda>(w, s). length (os_waitpid w))")
   apply simp
  apply (auto simp: connected_raw_def poll_nonblocking_def Popen_poll_def
              split: option.splits list.splits if_splits)
  done

declare wait_for_close.simps [simp del]

text \<open>
  \<^verbatim>\<open>poll(block)\<close>, lines 498 to 517. The value \<open>None\<close> is a call that does not return.
  Without \<^verbatim>\<open>block\<close> the method is \<open>poll_nonblocking\<close>, which is what the other
  methods run when they call \<^verbatim>\<open>self.poll()\<close>.
\<close>

definition poll :: "bool \<Rightarrow> os \<Rightarrow> process \<Rightarrow> ((int option) res) option" where
  "poll block w s =
     (if block then
        (case wait_for_close w s of
           None \<Rightarrow> None
         | Some (Inl e, w', s') \<Rightarrow> Some (Inl e, w', s')
         | Some (Inr u, w', s') \<Rightarrow> Some (poll_nonblocking w' s'))
      else Some (poll_nonblocking w s))"

section \<open>Sequences of calls\<close>

text \<open>
  A caller's calls one after the other, each with the system's answers during it. The
  handle a call leaves is the handle of the next, also when the call raised (the caller
  may catch the exception and go on). A call that does not return ends the sequence
  with \<open>None\<close>.
\<close>

datatype call =
    Poll bool
  | Recv_raw nat
  | Send_raw bytes
  | Can_recv_raw "nat option"
  | Connected_raw string
  | Shutdown_raw string
  | Settimeout_raw "nat option"
  | Close
  | Kill

fun call_handle :: "call \<Rightarrow> os \<Rightarrow> process \<Rightarrow> process option" where
  "call_handle (Poll b) w s = map_option handle (poll b w s)"
| "call_handle (Recv_raw n) w s = Some (handle (recv_raw n w s))"
| "call_handle (Send_raw d) w s = Some (handle (send_raw d w s))"
| "call_handle (Can_recv_raw t) w s = Some (handle (can_recv_raw t w s))"
| "call_handle (Connected_raw d) w s = Some (handle (connected_raw d w s))"
| "call_handle (Shutdown_raw d) w s = Some (handle (shutdown_raw d w s))"
| "call_handle (Settimeout_raw t) w s = Some s"
| "call_handle Close w s = Some (handle (close w s))"
| "call_handle Kill w s = Some (handle (kill w s))"

fun calls :: "(call \<times> os) list \<Rightarrow> process \<Rightarrow> process option" where
  "calls [] s = Some s"
| "calls ((c, w) # cs) s =
     (case call_handle c w s of None \<Rightarrow> None | Some s' \<Rightarrow> calls cs s')"

fun polls :: "(bool \<times> os) list \<Rightarrow> process \<Rightarrow> process option" where
  "polls [] s = Some s"
| "polls ((b, w) # bs) s =
     (case poll b w s of None \<Rightarrow> None | Some r \<Rightarrow> polls bs (handle r))"

definition send_closed :: "process \<Rightarrow> bool" where
  "send_closed s = (case proc s of None \<Rightarrow> False | Some p \<Rightarrow> stdin p = Some True)"

definition recv_closed :: "process \<Rightarrow> bool" where
  "recv_closed s = (case proc s of None \<Rightarrow> False | Some p \<Rightarrow> stdout p = Some True)"

section \<open>Example handles and system answers\<close>

text \<open>
  A spawned child that still runs, with pipes or a pty on stdin and stdout and stderr
  shared with stdout; and a system in which the child keeps running, stdout is readable
  and delivers \<open>hello\<close>, writes succeed, and the kill is followed by exit status \<open>-9\<close>.
\<close>

definition running_popen :: popen where
  "running_popen =
     \<lparr>pid = 1000, stdin = Some False, stdout = Some False, stderr = None,
      returncode = None\<rparr>"

definition running_handle :: process where
  "running_handle =
     \<lparr>proc = Some running_popen, stop_noticed = False, executable = ''/bin/cat'',
      timeout = Some 10, infos = []\<rparr>"


definition quiet_os :: os where
  "quiet_os =
     \<lparr>os_waitpid = [], os_select = (\<lambda>t. Inr True),
      os_read = (\<lambda>n. Inr (Some (take n ''hello''))), os_write = (\<lambda>d. Inr ()),
      os_kill = None, os_wait = Inr (- 9)\<rparr>"

definition recv_closed_handle :: process where
  "recv_closed_handle = running_handle\<lparr>proc := Some (running_popen\<lparr>stdout := Some True\<rparr>)\<rparr>"

text \<open>A system whose read of stdout fails with \<^verbatim>\<open>EIO\<close>, as a pty master's does once the
  child has closed the slave.\<close>

definition eio_os :: os where
  "eio_os = quiet_os\<lparr>os_read := (\<lambda>n. Inl (OSError 5 ''Input/output error''))\<rparr>"

definition send_closed_handle :: process where
  "send_closed_handle = running_handle\<lparr>proc := Some (running_popen\<lparr>stdin := Some True\<rparr>)\<rparr>"

text \<open>A system whose \<^verbatim>\<open>select\<close> fails with \<^verbatim>\<open>EBADF\<close>.\<close>

definition ebadf_os :: os where
  "ebadf_os = quiet_os\<lparr>os_select := (\<lambda>t. Inl (OSError 9 ''Bad file descriptor''))\<rparr>"

section \<open>The launcher's candidates\<close>

text \<open>
  Lines 264 to 294 of \<^verbatim>\<open>__init__\<close>. A candidate is a prefix of argv and an executable:
  the program itself and, when \<^verbatim>\<open>get_qemu_user\<close> raises nothing, the emulator.
  \<^verbatim>\<open>subprocess.Popen\<close> is a parameter: what it answers for the arguments and the
  executable it is given. So is the \<^verbatim>\<open>exception\<close> method of the logger, which is
  not in the sources: given the exception being handled, it raises one (\<open>Some\<close>) or
  returns (\<open>None\<close>).
\<close>

type_synonym candidate = "string list \<times> string"

definition prefixes :: "string \<Rightarrow> string option \<Rightarrow> candidate list" where
  "prefixes exe qemu = ([], exe) # (case qemu of None \<Rightarrow> [] | Some q \<Rightarrow> [([q], q)])"

text \<open>
  \<^verbatim>\<open>raise exception\<close> on the stored exception: raising \<^verbatim>\<open>None\<close> is a \<^verbatim>\<open>TypeError\<close>.
\<close>

definition raise_stored :: "exc option \<Rightarrow> exc" where
  "raise_stored exception = (case exception of None \<Rightarrow> TypeError | Some e \<Rightarrow> e)"

text \<open>
  The \<^verbatim>\<open>else\<close> of the loop. When the logger returns, \<^verbatim>\<open>__init__\<close> goes on with
  \<^verbatim>\<open>self.proc\<close> still \<^verbatim>\<open>None\<close>, and its next use of \<^verbatim>\<open>self.proc\<close> raises
  \<^verbatim>\<open>AttributeError\<close>.
\<close>

definition candidates_exhausted :: "(exc \<Rightarrow> exc option) \<Rightarrow> exc option \<Rightarrow> exc" where
  "candidates_exhausted logger_exception exception =
     (case logger_exception (raise_stored exception) of
        Some e \<Rightarrow> e
      | None \<Rightarrow> AttributeError)"

text \<open>
  The loop, with the candidates tried so far. It returns the \<^verbatim>\<open>Popen\<close> object or the
  exception that leaves \<^verbatim>\<open>__init__\<close>, and the candidates \<^verbatim>\<open>Popen\<close> was called with, in
  the order of the calls.
\<close>

fun spawn_loop ::
  "(string list \<Rightarrow> string \<Rightarrow> exc + popen) \<Rightarrow> (exc \<Rightarrow> exc option) \<Rightarrow> string list \<Rightarrow>
   candidate list \<Rightarrow> exc option \<Rightarrow> candidate list \<Rightarrow> (exc + popen) \<times> candidate list" where
  "spawn_loop Popen logger_exception argv [] exception tried =
     (Inl (candidates_exhausted logger_exception exception), tried)"
| "spawn_loop Popen logger_exception argv ((prefix, exe) # rest) exception tried =
     (case Popen (prefix @ argv) exe of
        Inr pr \<Rightarrow> (Inr pr, tried @ [(prefix, exe)])
      | Inl e \<Rightarrow>
          (case e of
             OSError n m \<Rightarrow>
               if n \<noteq> ENOEXEC then (Inl e, tried @ [(prefix, exe)])
               else spawn_loop Popen logger_exception argv rest (Some e)
                      (tried @ [(prefix, exe)])
           | _ \<Rightarrow> (Inl e, tried @ [(prefix, exe)])))"

definition exec_format_error :: "exc \<Rightarrow> bool" where
  "exec_format_error e = (case e of OSError n m \<Rightarrow> n = ENOEXEC | _ \<Rightarrow> False)"

definition spawn ::
  "(string list \<Rightarrow> string \<Rightarrow> exc + popen) \<Rightarrow> (exc \<Rightarrow> exc option) \<Rightarrow> string list \<Rightarrow>
   candidate list \<Rightarrow> (exc + popen) \<times> candidate list" where
  "spawn Popen logger_exception argv cands = spawn_loop Popen logger_exception argv cands None []"

text \<open>
  Modelled from the spec: the logger's \<^verbatim>\<open>exception\<close> method is not in the sources. The
  spec has the last error raised again once every candidate has failed, so the method
  raises the exception being handled.
\<close>

definition reraise :: "exc \<Rightarrow> exc option" where
  "reraise e = Some e"

text \<open>
  An example: the program is of a foreign architecture, so the system refuses it with
  \<^verbatim>\<open>ENOEXEC\<close>; under the emulator it starts.
\<close>

definition foreign_Popen :: "string list \<Rightarrow> string \<Rightarrow> exc + popen" where
  "foreign_Popen args exe =
     (if exe = ''/usr/bin/qemu-arm'' then Inr running_popen
      else Inl (OSError ENOEXEC ''Exec format error''))"

definition no_emulator_Popen :: "string list \<Rightarrow> string \<Rightarrow> exc + popen" where
  "no_emulator_Popen args exe =
     (if exe = ''/usr/bin/qemu-arm'' then Inl (OSError ENOEXEC ''Exec format error: qemu'')
      else Inl (OSError ENOEXEC ''Exec format error''))"

definition denied_Popen :: "string list \<Rightarrow> string \<Rightarrow> exc + popen" where
  "denied_Popen args exe = Inl (OSError 13 ''Permission denied'')"

section \<open>Validation of argv and the environment\<close>

text \<open>
  \<^verbatim>\<open>_validate\<close>. An entry of argv or of the environment is text, bytes or something else;
  the NUL of its own type is looked for in \<^verbatim>\<open>arg[:-1]\<close> and stripped from the right by
  \<^verbatim>\<open>rstrip\<close>.
\<close>

definition NUL :: char where
  "NUL = CHR 0x00"

definition is_string :: "pyobj \<Rightarrow> bool" where
  "is_string x = (case x of NonString \<Rightarrow> False | _ \<Rightarrow> True)"

definition chars :: "pyobj \<Rightarrow> string" where
  "chars x = (case x of Str s \<Rightarrow> s | Bytes s \<Rightarrow> s | NonString \<Rightarrow> [])"

text \<open>\<^verbatim>\<open>s.rstrip(c)\<close>: every trailing \<open>c\<close> goes.\<close>

definition rstrip :: "char \<Rightarrow> string \<Rightarrow> string" where
  "rstrip c s = rev (dropWhile (\<lambda>x. x = c) (rev s))"

definition rstrip_null :: "pyobj \<Rightarrow> pyobj" where
  "rstrip_null x =
     (case x of Str s \<Rightarrow> Str (rstrip NUL s) | Bytes s \<Rightarrow> Bytes (rstrip NUL s)
      | NonString \<Rightarrow> NonString)"

text \<open>\<^verbatim>\<open>null_byte in arg[:-1]\<close>\<close>

definition inner_null :: "pyobj \<Rightarrow> bool" where
  "inner_null x = (NUL \<in> set (butlast (chars x)))"

text \<open>
  Modelled from the spec: \<^verbatim>\<open>log.error\<close> belongs to the logger, which is not in the
  sources. The spec has every violation fail the validation with an error that carries
  the offending value; so \<^verbatim>\<open>log.error\<close> raises, with its message.
\<close>

definition log_error :: "message \<Rightarrow> exc + 'a" where
  "log_error msg = Inl (PwnlibException msg)"

text \<open>
  The loop over argv, lines 381 to 386, from index \<open>i\<close> on. The entries are strings
  when the loop is reached; slicing anything else is a \<^verbatim>\<open>TypeError\<close>.
\<close>

fun validate_argv :: "nat \<Rightarrow> pyobj list \<Rightarrow> exc + pyobj list" where
  "validate_argv i [] = Inr []"
| "validate_argv i (arg # rest) =
     (if \<not> is_string arg then Inl TypeError
      else if inner_null arg then log_error (Inappropriate_nulls_in_argv i arg)
      else (case validate_argv (Suc i) rest of
              Inl e \<Rightarrow> Inl e
            | Inr rest' \<Rightarrow> Inr (rstrip_null arg # rest')))"

text \<open>\<^verbatim>\<open>d[k] = v\<close> on a dictionary kept in insertion order.\<close>

fun dict_set :: "'k \<Rightarrow> 'v \<Rightarrow> ('k \<times> 'v) list \<Rightarrow> ('k \<times> 'v) list" where
  "dict_set k v [] = [(k, v)]"
| "dict_set k v ((k', v') # d) = (if k' = k then (k, v) # d else (k', v') # dict_set k v d)"

text \<open>The loop over the items of the environment, lines 433 to 447, filling \<open>env\<close>.\<close>

fun validate_env ::
  "(pyobj \<times> pyobj) list \<Rightarrow> (pyobj \<times> pyobj) list \<Rightarrow> exc + (pyobj \<times> pyobj) list" where
  "validate_env [] env = Inr env"
| "validate_env ((k, v) # env_vars) env =
     (if \<not> is_string k then log_error (Environment_keys_must_be k)
      else if \<not> is_string v then log_error (Environment_values_must_be k v)
      else if inner_null k then log_error (Inappropriate_null_byte_in_env_key k)
      else if inner_null v then log_error (Inappropriate_null_byte_in_env_value k v)
      else validate_env env_vars (dict_set (rstrip_null k) (rstrip_null v) env))"

text \<open>
  The file system and the ambient environment, as \<^verbatim>\<open>_validate\<close> asks them:
  \<^verbatim>\<open>which\<close>, \<^verbatim>\<open>os.path.exists\<close>, \<^verbatim>\<open>os.path.isfile\<close>, \<^verbatim>\<open>os.access(_, X_OK)\<close> and
  \<^verbatim>\<open>os.environ\<close>.
\<close>

record filesystem =
  which :: "string \<Rightarrow> string option"
  path_exists :: "string \<Rightarrow> bool"
  path_isfile :: "string \<Rightarrow> bool"
  access_x :: "string \<Rightarrow> bool"
  environ :: "(pyobj \<times> pyobj) list"

definition sep :: char where
  "sep = CHR ''/''"

definition path_join :: "string \<Rightarrow> string \<Rightarrow> string" where
  "path_join a b =
     (if b \<noteq> [] \<and> hd b = sep then b
      else if a = [] \<or> last a = sep then a @ b
      else a @ [sep] @ b)"

text \<open>
  An argv given as one string is wrapped into a list; anything else is iterated over,
  which a value that is no sequence refuses with \<^verbatim>\<open>TypeError\<close>.
\<close>

datatype argv_arg = Scalar pyobj | Sequence "pyobj list"

definition argv_list :: "argv_arg \<Rightarrow> exc + pyobj list" where
  "argv_list a =
     (case a of
        Scalar x \<Rightarrow> if is_string x then Inr [x] else Inl TypeError
      | Sequence xs \<Rightarrow> Inr xs)"

text \<open>
  Lines 394 to 420: the executable, from the argument or from \<^verbatim>\<open>argv[0]\<close>, resolved
  and checked. \<^verbatim>\<open>startswith\<close> with a text separator on bytes is a \<^verbatim>\<open>TypeError\<close>.
\<close>

definition validate_executable ::
  "filesystem \<Rightarrow> string \<Rightarrow> string option \<Rightarrow> pyobj list \<Rightarrow> exc + string" where
  "validate_executable fs cwd exe_arg argv =
     (case (case exe_arg of
              Some e \<Rightarrow> if e \<noteq> [] then Inr e
                        else (case argv of [] \<Rightarrow> log_error Must_specify_argv_or_executable
                              | a # _ \<Rightarrow> (case a of Str s \<Rightarrow> Inr s | _ \<Rightarrow> Inl TypeError))
            | None \<Rightarrow> (case argv of [] \<Rightarrow> log_error Must_specify_argv_or_executable
                        | a # _ \<Rightarrow> (case a of Str s \<Rightarrow> Inr s | _ \<Rightarrow> Inl TypeError))) of
        Inl e \<Rightarrow> Inl e
      | Inr exe \<Rightarrow>
          (let exe' =
                 (if exe \<noteq> [] \<and> hd exe = sep then exe
                  else if sep \<notin> set exe \<and> which fs exe \<noteq> None \<and> which fs exe \<noteq> Some []
                    then (case which fs exe of Some f \<Rightarrow> f | None \<Rightarrow> exe)
                  else if sep \<notin> set exe then path_join cwd exe
                  else exe)
           in if \<not> path_exists fs exe' then log_error (Does_not_exist exe')
              else if \<not> path_isfile fs exe' then log_error (Is_not_a_file exe')
              else if \<not> access_x fs exe' then log_error (Is_not_marked_as_executable exe')
              else Inr exe'))"

text \<open>\<^verbatim>\<open>cwd or os.path.curdir\<close> and \<^verbatim>\<open>env or os.environ\<close>\<close>

definition cwd_or_curdir :: "string option \<Rightarrow> string" where
  "cwd_or_curdir cwd = (case cwd of None \<Rightarrow> ''.'' | Some d \<Rightarrow> if d = [] then ''.'' else d)"

definition env_or_environ ::
  "filesystem \<Rightarrow> (pyobj \<times> pyobj) list option \<Rightarrow> (pyobj \<times> pyobj) list" where
  "env_or_environ fs env =
     (case env of None \<Rightarrow> environ fs | Some d \<Rightarrow> if d = [] then environ fs else d)"

definition validate ::
  "filesystem \<Rightarrow> string option \<Rightarrow> string option \<Rightarrow> argv_arg \<Rightarrow>
   (pyobj \<times> pyobj) list option \<Rightarrow> exc + (string \<times> pyobj list \<times> (pyobj \<times> pyobj) list)" where
  "validate fs cwd exe_arg argv env =
     (case argv_list argv of
        Inl e \<Rightarrow> Inl e
      | Inr args \<Rightarrow>
          if \<not> list_all is_string args then log_error (Argv_must_only_contain args)
          else
            (case validate_argv 0 args of
               Inl e \<Rightarrow> Inl e
             | Inr argv' \<Rightarrow>
                 (case validate_executable fs (cwd_or_curdir cwd) exe_arg argv' of
                    Inl e \<Rightarrow> Inl e
                  | Inr exe \<Rightarrow>
                      (case validate_env (env_or_environ fs env) [] of
                         Inl e \<Rightarrow> Inl e
                       | Inr env' \<Rightarrow> Inr (exe, argv', env')))))"

text \<open>Examples: a file system with \<^verbatim>\<open>/bin/sh\<close>, found by \<^verbatim>\<open>which\<close> under the name sh.\<close>

definition sh_fs :: filesystem where
  "sh_fs =
     \<lparr>which = (\<lambda>n. if n = ''sh'' then Some ''/bin/sh'' else None),
      path_exists = (\<lambda>f. f = ''/bin/sh''), path_isfile = (\<lambda>f. f = ''/bin/sh''),
      access_x = (\<lambda>f. f = ''/bin/sh''),
      environ = [(Str ''HOME'', Str ''/root'')]\<rparr>"

section \<open>The child before exec\<close>

text \<open>
  \<^verbatim>\<open>_preexec_fn\<close>. The attributes of the handle it reads (\<^verbatim>\<open>self.pty\<close>, \<^verbatim>\<open>self.aslr\<close>,
  \<^verbatim>\<open>self._setuid\<close>) and \<^verbatim>\<open>context.os == 'linux'\<close> are the configuration; the outcome of
  each system call it makes is given by the child's system (\<open>None\<close>: the call succeeds).
  The logger's \<^verbatim>\<open>exception\<close> method is not in the sources and is a parameter here too.
  The routine returns the steps it attempted, in order, and the exception that leaves
  it, if any.
\<close>

record child_config =
  cfg_pty :: "nat option"
  cfg_aslr :: bool
  cfg_setuid :: "bool option"
  cfg_linux :: bool

record child_os =
  make_controlling_tty_r :: "exc option"
  personality_r :: "exc option"
  setrlimit_stack_r :: "exc option"
  log_exception_r :: "exc \<Rightarrow> exc option"
  setrlimit_core_r :: "exc option"
  coredump_filter_r :: "exc option"
  prctl_r :: "exc option"
  preexec_hook_r :: "exc option"

datatype action =
    Make_controlling_tty nat
  | Personality_ADDR_NO_RANDOMIZE
  | Setrlimit_STACK
  | Log_could_not_disable_ASLR
  | Setrlimit_CORE
  | Write_coredump_filter
  | Prctl_NO_NEW_PRIVS
  | Preexec_hook

type_synonym steps = "action list \<times> exc option"

text \<open>One statement after another: the second runs when the first raised nothing.\<close>

definition and_then :: "steps \<Rightarrow> steps \<Rightarrow> steps" where
  "and_then r nxt = (case snd r of Some e \<Rightarrow> r | None \<Rightarrow> (fst r @ fst nxt, snd nxt))"

definition skip :: steps where
  "skip = ([], None)"

text \<open>\<^verbatim>\<open>try: ... except: pass\<close> and \<^verbatim>\<open>except Exception: pass\<close>: every exception of the
  model is an \<^verbatim>\<open>Exception\<close>.\<close>

definition except_pass :: "steps \<Rightarrow> steps" where
  "except_pass r = (fst r, None)"

text \<open>Lines 323 to 331.\<close>

definition disable_aslr :: "child_config \<Rightarrow> child_os \<Rightarrow> steps" where
  "disable_aslr cfg w =
     (let body =
            and_then
              (if cfg_linux cfg \<and> cfg_setuid cfg \<noteq> Some True
               then ([Personality_ADDR_NO_RANDOMIZE], personality_r w) else skip)
              ([Setrlimit_STACK], setrlimit_stack_r w)
      in case snd body of
           None \<Rightarrow> body
         | Some e \<Rightarrow> (fst body @ [Log_could_not_disable_ASLR], log_exception_r w e))"

definition preexec_fn :: "child_config \<Rightarrow> child_os \<Rightarrow> steps" where
  "preexec_fn cfg w =
     and_then
       (and_then
          (and_then
             (and_then
                (and_then
                   (case cfg_pty cfg of
                      None \<Rightarrow> skip
                    | Some fd \<Rightarrow> ([Make_controlling_tty fd], make_controlling_tty_r w))
                   (if \<not> cfg_aslr cfg then disable_aslr cfg w else skip))
                ([Setrlimit_CORE], setrlimit_core_r w))
             (except_pass ([Write_coredump_filter], coredump_filter_r w)))
          (if cfg_setuid cfg = Some False
           then except_pass ([Prctl_NO_NEW_PRIVS], prctl_r w) else skip))
       ([Preexec_hook], preexec_hook_r w)"

text \<open>
  Examples: a child on Linux with no pty and ASLR left on; a system where every call
  succeeds, one where the hard limit on core files is below unlimited and may not be
  raised, and one where the core-dump filter cannot be written.
\<close>

definition plain_config :: child_config where
  "plain_config = \<lparr>cfg_pty = None, cfg_aslr = True, cfg_setuid = None, cfg_linux = True\<rparr>"

definition willing_child_os :: child_os where
  "willing_child_os =
     \<lparr>make_controlling_tty_r = None, personality_r = None, setrlimit_stack_r = None,
      log_exception_r = (\<lambda>e. Some e), setrlimit_core_r = None, coredump_filter_r = None,
      prctl_r = None, preexec_hook_r = None\<rparr>"

definition core_limited_child_os :: child_os where
  "core_limited_child_os = willing_child_os\<lparr>setrlimit_core_r := Some ValueError\<rparr>"

definition no_filter_child_os :: child_os where
  "no_filter_child_os =
     willing_child_os\<lparr>coredump_filter_r := Some (OSError 13 ''Permission denied'')\<rparr>"

section \<open>Leaking memory\<close>








text \<open>A closed stream stays closed from one handle to a later one.\<close>

definition keeps_closed :: "process \<Rightarrow> process \<Rightarrow> bool" where
  "keeps_closed s s' = ((send_closed s \<longrightarrow> send_closed s') \<and> (recv_closed s \<longrightarrow> recv_closed s'))"


text \<open>What one observation of an exit status adds to the log.\<close>

definition exit_notice :: "process \<Rightarrow> int \<Rightarrow> notice list" where
  "exit_notice s rc = (if stop_noticed s then [] else [Stopped_with_exit_code (executable s) rc])"


text \<open>
  More examples: the child exits by itself with status 0 between two status checks;
  the handles after that exit was noticed and after a close that killed the child.
\<close>

definition exited_os :: os where
  "exited_os = quiet_os\<lparr>os_waitpid := [None, Some 0]\<rparr>"

definition exited_handle :: process where
  "exited_handle =
     \<lparr>proc = Some (running_popen\<lparr>returncode := Some 0\<rparr>), stop_noticed = True,
      executable = ''/bin/cat'', timeout = Some 10,
      infos = [Stopped_with_exit_code ''/bin/cat'' 0]\<rparr>"

definition killed_handle :: process where
  "killed_handle =
     \<lparr>proc = Some \<lparr>pid = 1000, stdin = Some True, stdout = Some True, stderr = None,
                   returncode = Some (- 9)\<rparr>,
      stop_noticed = True, executable = ''/bin/cat'', timeout = Some 10,
      infos = [Stopped_program ''/bin/cat'']\<rparr>"




section \<open>Closed forms of poll and close\<close>

lemma Popen_poll_streams:
  "stdin (snd (Popen_poll w p)) = stdin p"
  "stdout (snd (Popen_poll w p)) = stdout p"
  "stderr (snd (Popen_poll w p)) = stderr p"
  "pid (snd (Popen_poll w p)) = pid p"
  by (simp_all add: Popen_poll_def split: list.splits)

lemma poll_nonblocking_eq:
  assumes "proc s = Some p"
  shows "poll_nonblocking w s =
    (Inr (returncode (snd (Popen_poll w p))), fst (Popen_poll w p),
     s\<lparr>proc := Some (snd (Popen_poll w p)),
       stop_noticed := stop_noticed s \<or> returncode (snd (Popen_poll w p)) \<noteq> None,
       infos := infos s @ (case returncode (snd (Popen_poll w p)) of None \<Rightarrow> []
                 | Some rc \<Rightarrow> if stop_noticed s then [] else [Stopped_with_exit_code (executable s) rc])\<rparr>)"
  using assms by (simp add: poll_nonblocking_def split: prod.splits option.splits)

lemma kill_handler:
  "(case Popen_kill w p of Inl e \<Rightarrow> except_OSError_pass e w1 s2 | Inr u \<Rightarrow> X) =
   (if returncode p = None \<and> os_kill w \<noteq> None then (Inr (), w1, s2) else X)"
  by (auto simp: Popen_kill_def except_OSError_pass_def split: option.splits)

lemma wait_handler:
  "(case Popen_wait w p of Inl e \<Rightarrow> except_OSError_pass e w1 s2 | Inr p3 \<Rightarrow> X p3) =
   (if returncode p \<noteq> None then X p
    else case os_wait w of Inl e \<Rightarrow> (Inr (), w1, s2) | Inr rc \<Rightarrow> X (p\<lparr>returncode := Some rc\<rparr>))"
  by (auto simp: Popen_wait_def except_OSError_pass_def split: sum.splits)

lemma close_eq:
  assumes "proc s = Some p"
  shows "close w s =
    (let w1 = fst (Popen_poll w p); p1 = snd (Popen_poll w p);
         p2 = p1\<lparr>stdin := close_if_present (stdin p), stdout := close_if_present (stdout p),
                 stderr := close_if_present (stderr p)\<rparr>
     in case returncode p1 of
          Some rc \<Rightarrow> (Inr (), w1, s\<lparr>proc := Some p2, stop_noticed := True,
                       infos := infos s @ (if stop_noticed s then [] else [Stopped_with_exit_code (executable s) rc])\<rparr>)
        | None \<Rightarrow>
           if stop_noticed s then (Inr (), w1, s\<lparr>proc := Some p2\<rparr>)
           else if os_kill w1 \<noteq> None then (Inr (), w1, s\<lparr>proc := Some p2\<rparr>)
           else (case os_wait w1 of
                   Inl e \<Rightarrow> (Inr (), w1, s\<lparr>proc := Some p2\<rparr>)
                 | Inr rc \<Rightarrow> (Inr (), w1, s\<lparr>proc := Some (p2\<lparr>returncode := Some rc\<rparr>), stop_noticed := True,
                       infos := infos s @ [Stopped_program (executable s)]\<rparr>)))"
  using assms
  by (simp add: close_def poll_nonblocking_eq Let_def Popen_poll_streams kill_handler wait_handler
           split: option.splits sum.splits)

section \<open>Closed streams stay closed\<close>

lemma keeps_closed_refl: "keeps_closed s s"
  by (simp add: keeps_closed_def)

lemma keeps_closed_trans: "keeps_closed s s' \<Longrightarrow> keeps_closed s' s'' \<Longrightarrow> keeps_closed s s''"
  by (simp add: keeps_closed_def)

lemma keeps_closed_unspawned: "proc s = None \<Longrightarrow> keeps_closed s s'"
  by (simp add: keeps_closed_def send_closed_def recv_closed_def)

lemma poll_nonblocking_keeps:
  "keeps_closed s (handle (poll_nonblocking w s))"
proof (cases "proc s")
  case None
  then show ?thesis by (rule keeps_closed_unspawned)
next
  case (Some p)
  then show ?thesis
    by (simp add: poll_nonblocking_eq handle_def keeps_closed_def send_closed_def
        recv_closed_def Popen_poll_streams)
qed

lemma connected_raw_keeps:
  "keeps_closed s (handle (connected_raw d w s))"
proof (cases "d = ''any''")
  case True
  then show ?thesis
    using poll_nonblocking_keeps [of s w]
    by (auto simp: connected_raw_def handle_def split: prod.splits sum.splits)
next
  case False
  then show ?thesis
    by (auto simp: connected_raw_def handle_def keeps_closed_refl
        split: option.splits sum.splits)
qed

lemma connected_raw_recv_handle:
  "handle (connected_raw ''recv'' w s) = s" "fst (snd (connected_raw ''recv'' w s)) = w"
  by (auto simp: connected_raw_def handle_def split: option.splits sum.splits)

lemma connected_raw_send_handle:
  "handle (connected_raw ''send'' w s) = s" "fst (snd (connected_raw ''send'' w s)) = w"
  by (auto simp: connected_raw_def handle_def split: option.splits sum.splits)

lemma can_recv_raw_handle:
  "handle (can_recv_raw t w s) = s"
  using connected_raw_recv_handle [of w s]
  by (auto simp: can_recv_raw_def handle_def split: prod.splits sum.splits exc.splits)

lemma close_keeps:
  "keeps_closed s (handle (close w s))"
proof (cases "proc s")
  case None
  then show ?thesis by (rule keeps_closed_unspawned)
next
  case (Some p)
  then show ?thesis
    by (auto simp: close_eq handle_def keeps_closed_def send_closed_def
        recv_closed_def Popen_poll_streams Let_def close_if_present_def
        split: option.splits sum.splits)
qed

lemma shutdown_raw_keeps:
  "keeps_closed s (handle (shutdown_raw d w s))"
proof (cases "proc s")
  case None
  then show ?thesis by (rule keeps_closed_unspawned)
next
  case (Some p)
  have step: "keeps_closed s s2 \<Longrightarrow> keeps_closed s (snd (snd (close w s2)))" for s2
    using close_keeps [of s2 w] keeps_closed_trans [of s s2] by (simp add: handle_def)
  have upd: "keeps_closed s (s\<lparr>proc := Some q\<rparr>)"
    if "stdin p = Some True \<longrightarrow> stdin q = Some True" "stdout p = Some True \<longrightarrow> stdout q = Some True" for q
    using that Some by (simp add: keeps_closed_def send_closed_def recv_closed_def)
  show ?thesis
    using Some
    by (cases "stdin p"; cases "stdout p"; cases "d = ''send''"; cases "d = ''recv''")
       (auto simp: shutdown_raw_def Let_def close_stream_if_def file_close_def closed_def
          handle_def keeps_closed_refl intro!: step upd)
qed

lemma shutdown_tube_keeps:
  "keeps_closed s (handle (shutdown d w s))"
  by (simp add: shutdown_def shutdown_raw_keeps)

lemma recv_raw_keeps:
  "keeps_closed s (handle (recv_raw n w s))"
proof -
  obtain r w1 s1 where p: "poll_nonblocking w s = (r, w1, s1)"
    by (cases "poll_nonblocking w s") auto
  obtain c2 w2 where cr: "connected_raw ''recv'' w1 s1 = (c2, w2, s1)"
    using connected_raw_recv_handle(1) [of w1 s1]
    by (cases "connected_raw ''recv'' w1 s1") (auto simp: handle_def)
  obtain c3 w3 where cn: "can_recv_raw (timeout s1) w2 s1 = (c3, w3, s1)"
    using can_recv_raw_handle [of "timeout s1" w2 s1]
    by (cases "can_recv_raw (timeout s1) w2 s1") (auto simp: handle_def)
  obtain c4 w4 s4 where sh: "shutdown ''recv'' w3 s1 = (c4, w4, s4)"
    by (cases "shutdown ''recv'' w3 s1") auto
  have k1: "keeps_closed s s1"
    using poll_nonblocking_keeps [of s w] p by (simp add: handle_def)
  have "keeps_closed s1 s4"
    using shutdown_tube_keeps [of s1 "''recv''" w3] sh by (simp add: handle_def)
  then have k4: "keeps_closed s s4"
    using k1 keeps_closed_trans by blast
  show ?thesis
    using k1 k4
    by (auto simp: recv_raw_def handle_def p cr cn sh split: sum.splits)
qed

lemma send_raw_keeps:
  "keeps_closed s (handle (send_raw n w s))"
proof -
  obtain r w1 s1 where p: "poll_nonblocking w s = (r, w1, s1)"
    by (cases "poll_nonblocking w s") auto
  obtain c2 w2 where cr: "connected_raw ''send'' w1 s1 = (c2, w2, s1)"
    using connected_raw_send_handle(1) [of w1 s1]
    by (cases "connected_raw ''send'' w1 s1") (auto simp: handle_def)
  have k1: "keeps_closed s s1" using poll_nonblocking_keeps [of s w] p by (simp add: handle_def)
  show ?thesis
    using k1
    by (auto simp: send_raw_def handle_def p cr split: sum.splits exc.splits)
qed

lemma wait_for_close_keeps:
  "wait_for_close w s = Some r \<Longrightarrow> keeps_closed s (handle r)"
proof (induction w s arbitrary: r rule: wait_for_close.induct)
  case (1 w s)
  obtain c w1 s1 where cr: "connected_raw ''any'' w s = (c, w1, s1)"
    by (cases "connected_raw ''any'' w s") auto
  have k1: "keeps_closed s s1"
    using connected_raw_keeps [of s "''any''" w] cr by (simp add: handle_def)
  note unfold = "1.prems" [unfolded wait_for_close.simps [of w s] cr]
  show ?case
  proof (cases c)
    case (Inl e)
    then show ?thesis using unfold k1 by (auto simp: handle_def)
  next
    case (Inr v)
    show ?thesis
    proof (cases "truthy v")
      case False
      then show ?thesis using unfold k1 Inr by (auto simp: handle_def)
    next
      case True
      then have ne: "os_waitpid w \<noteq> []" and rec: "wait_for_close w1 s1 = Some r"
        using unfold Inr by (auto split: if_splits)
      have "keeps_closed s1 (handle r)"
        using "1.IH" [OF cr [symmetric] Inr refl True ne rec] .
      then show ?thesis using k1 keeps_closed_trans by blast
    qed
  qed
qed

lemma poll_keeps:
  "poll b w s = Some r \<Longrightarrow> keeps_closed s (handle r)"
proof (cases b)
  case False
  assume "poll b w s = Some r"
  then show ?thesis
    using False poll_nonblocking_keeps [of s w] by (auto simp: poll_def)
next
  case True
  assume a: "poll b w s = Some r"
  then obtain x w1 s1 where wf: "wait_for_close w s = Some (x, w1, s1)"
    using True by (auto simp: poll_def split: option.splits)
  have k1: "keeps_closed s s1"
    using wait_for_close_keeps [OF wf] by (simp add: handle_def)
  have k2: "keeps_closed s (handle (poll_nonblocking w1 s1))"
    using k1 poll_nonblocking_keeps [of s1 w1] keeps_closed_trans by blast
  show ?thesis
    using a True wf k1 k2 by (auto simp: poll_def handle_def split: sum.splits)
qed

lemma call_handle_keeps:
  "call_handle c w s = Some s' \<Longrightarrow> keeps_closed s s'"
  by (cases c)
     (auto simp: recv_raw_keeps send_raw_keeps can_recv_raw_handle connected_raw_keeps
        shutdown_raw_keeps close_keeps kill_def keeps_closed_refl dest: poll_keeps)

lemma calls_keeps:
  "calls cs s = Some s' \<Longrightarrow> keeps_closed s s'"
proof (induction cs arbitrary: s)
  case Nil
  then show ?case by (simp add: keeps_closed_refl)
next
  case (Cons cw cs)
  obtain c w where cw: "cw = (c, w)" by (cases cw)
  from Cons.prems obtain s1 where 1: "call_handle c w s = Some s1" and 2: "calls cs s1 = Some s'"
    by (auto simp: cw split: option.splits)
  show ?case
    using call_handle_keeps [OF 1] Cons.IH [OF 2] keeps_closed_trans by blast
qed

lemma send_raw_closed:
  assumes "send_closed s"
  shows "fst (send_raw d w s) = Inl EOFError"
proof -
  obtain p where p: "proc s = Some p" "stdin p = Some True"
    using assms by (auto simp: send_closed_def split: option.splits)
  show ?thesis
    by (simp add: send_raw_def poll_nonblocking_eq [OF p(1)] connected_raw_def closed_def
        Popen_poll_streams p(2))
qed

lemma recv_raw_closed:
  assumes "recv_closed s"
  shows "fst (recv_raw n w s) = Inl EOFError"
proof -
  obtain p where p: "proc s = Some p" "stdout p = Some True"
    using assms by (auto simp: recv_closed_def split: option.splits)
  show ?thesis
    by (simp add: recv_raw_def poll_nonblocking_eq [OF p(1)] connected_raw_def closed_def
        Popen_poll_streams p(2))
qed

lemma send_closed_upd:
  "stdin q = Some True \<Longrightarrow> send_closed (s\<lparr>proc := Some q\<rparr>)"
  by (simp add: send_closed_def)

lemma recv_closed_upd:
  "stdout q = Some True \<Longrightarrow> recv_closed (s\<lparr>proc := Some q\<rparr>)"
  by (simp add: recv_closed_def)

lemma close_send_closed:
  "send_closed s \<Longrightarrow> send_closed (snd (snd (close w s)))"
  using close_keeps [of s w] by (simp add: keeps_closed_def handle_def)

lemma close_recv_closed:
  "recv_closed s \<Longrightarrow> recv_closed (snd (snd (close w s)))"
  using close_keeps [of s w] by (simp add: keeps_closed_def handle_def)

lemma shutdown_raw_send_closes:
  assumes "proc s = Some p" "stdin p \<noteq> None"
  shows "send_closed (handle (shutdown_raw ''send'' w s))"
  using assms
  by (cases "stdout p")
     (auto simp: shutdown_raw_def Let_def close_stream_if_def file_close_def closed_def
        handle_def intro!: close_send_closed send_closed_upd)

lemma shutdown_raw_recv_closes:
  assumes "proc s = Some p" "stdout p \<noteq> None"
  shows "recv_closed (handle (shutdown_raw ''recv'' w s))"
  using assms
  by (cases "stdin p")
     (auto simp: shutdown_raw_def Let_def close_stream_if_def file_close_def closed_def
        handle_def intro!: close_recv_closed recv_closed_upd)

text \<open>
  C3. On a handle whose stdin is a file object, \<open>shutdown_raw\<close> with "send" closes it,
  and whatever calls follow (\<open>cs\<close>, each with any answers of the system), a later
  \<open>send_raw\<close> fails with \<^verbatim>\<open>EOFError\<close>. Likewise for stdout, "recv" and \<open>recv_raw\<close>.
\<close>

theorem shutdown_raw_then_EOFError:
  assumes "proc s = Some p"
  shows "(stdin p \<noteq> None \<and> calls cs (handle (shutdown_raw ''send'' w s)) = Some s'
            \<longrightarrow> send_closed (handle (shutdown_raw ''send'' w s)) \<and>
                fst (send_raw d w' s') = Inl EOFError) \<and>
         (stdout p \<noteq> None \<and> calls cs (handle (shutdown_raw ''recv'' w s)) = Some s'
            \<longrightarrow> recv_closed (handle (shutdown_raw ''recv'' w s)) \<and>
                fst (recv_raw n w' s') = Inl EOFError)"
proof (intro conjI impI)
  assume a: "stdin p \<noteq> None \<and> calls cs (handle (shutdown_raw ''send'' w s)) = Some s'"
  show c: "send_closed (handle (shutdown_raw ''send'' w s))"
    using a assms by (intro shutdown_raw_send_closes) auto
  have "send_closed s'"
    using calls_keeps [of cs "handle (shutdown_raw ''send'' w s)" s'] a c
    by (simp add: keeps_closed_def)
  then show "fst (send_raw d w' s') = Inl EOFError"
    by (rule send_raw_closed)
next
  assume a: "stdout p \<noteq> None \<and> calls cs (handle (shutdown_raw ''recv'' w s)) = Some s'"
  show c: "recv_closed (handle (shutdown_raw ''recv'' w s))"
    using a assms by (intro shutdown_raw_recv_closes) auto
  have "recv_closed s'"
    using calls_keeps [of cs "handle (shutdown_raw ''recv'' w s)" s'] a c
    by (simp add: keeps_closed_def)
  then show "fst (recv_raw n w' s') = Inl EOFError"
    by (rule recv_raw_closed)
qed

lemma calls_after_send_shutdown:
  "calls [(Poll False, quiet_os), (Recv_raw 3, quiet_os), (Send_raw ''x'', quiet_os)]
     (handle (shutdown_raw ''send'' quiet_os running_handle)) = Some send_closed_handle"
  by (simp add: running_handle_def running_popen_def quiet_os_def send_closed_handle_def
      poll_def recv_raw_def send_raw_def poll_nonblocking_def Popen_poll_def
      connected_raw_def closed_def can_recv_raw_def read_stdout_def no_data_def
      shutdown_raw_def close_stream_if_def file_close_def handle_def Let_def)

lemma calls_after_recv_shutdown:
  "calls [(Poll False, quiet_os), (Recv_raw 3, quiet_os), (Send_raw ''x'', quiet_os)]
     (handle (shutdown_raw ''recv'' quiet_os running_handle)) = Some recv_closed_handle"
  by (simp add: running_handle_def running_popen_def quiet_os_def recv_closed_handle_def
      poll_def recv_raw_def send_raw_def poll_nonblocking_def Popen_poll_def
      connected_raw_def closed_def can_recv_raw_def read_stdout_def no_data_def
      shutdown_raw_def close_stream_if_def file_close_def handle_def Let_def)

theorem shutdown_raw_then_EOFError_witness:
  "proc running_handle = Some running_popen \<and>
   stdin running_popen \<noteq> None \<and> stdout running_popen \<noteq> None \<and>
   calls [(Poll False, quiet_os), (Recv_raw 3, quiet_os), (Send_raw ''x'', quiet_os)]
     (handle (shutdown_raw ''send'' quiet_os running_handle)) = Some send_closed_handle \<and>
   fst (send_raw ''y'' quiet_os send_closed_handle) = Inl EOFError \<and>
   calls [(Poll False, quiet_os), (Recv_raw 3, quiet_os), (Send_raw ''x'', quiet_os)]
     (handle (shutdown_raw ''recv'' quiet_os running_handle)) = Some recv_closed_handle \<and>
   fst (recv_raw 7 quiet_os recv_closed_handle) = Inl EOFError"
proof -
  let ?cs = "[(Poll False, quiet_os), (Recv_raw 3, quiet_os), (Send_raw ''x'', quiet_os)]"
  have 1: "proc running_handle = Some running_popen"
    by (simp add: running_handle_def)
  have 2: "stdin running_popen \<noteq> None"
    by (simp add: running_popen_def)
  have 3: "stdout running_popen \<noteq> None"
    by (simp add: running_popen_def)
  have a: "calls ?cs (handle (shutdown_raw ''send'' quiet_os running_handle))
             = Some send_closed_handle"
    by (rule calls_after_send_shutdown)
  have b: "calls ?cs (handle (shutdown_raw ''recv'' quiet_os running_handle))
             = Some recv_closed_handle"
    by (rule calls_after_recv_shutdown)
  have c: "fst (send_raw ''y'' quiet_os send_closed_handle) = Inl EOFError"
    using shutdown_raw_then_EOFError
      [OF 1, of ?cs quiet_os send_closed_handle "''y''" quiet_os] 2 a
    by blast
  have d: "fst (recv_raw 7 quiet_os recv_closed_handle) = Inl EOFError"
    using shutdown_raw_then_EOFError
      [OF 1, of ?cs quiet_os recv_closed_handle _ quiet_os 7] 3 b
    by blast
  show ?thesis
    using 1 2 3 a b c d by blast
qed

section \<open>Readiness and receive\<close>

lemma Popen_poll_os:
  "os_select (fst (Popen_poll w p)) = os_select w"
  "os_read (fst (Popen_poll w p)) = os_read w"
  "os_write (fst (Popen_poll w p)) = os_write w"
  "os_kill (fst (Popen_poll w p)) = os_kill w"
  "os_wait (fst (Popen_poll w p)) = os_wait w"
  by (simp_all add: Popen_poll_def split: list.splits)

lemma close_fst:
  "proc s = Some p \<Longrightarrow> fst (close w s) = Inr ()"
  by (simp add: close_eq Let_def split: option.splits sum.splits)

lemma can_recv_raw_closed_eq:
  assumes "recv_closed s"
  shows "can_recv_raw t w s = (Inr (PyBool False), w, s)"
proof -
  obtain p where p: "proc s = Some p" "stdout p = Some True"
    using assms by (auto simp: recv_closed_def split: option.splits)
  show ?thesis
    by (simp add: can_recv_raw_def connected_raw_def closed_def p)
qed

lemma can_recv_raw_open_eq:
  assumes "proc s = Some p" "stdout p = Some False"
  shows "can_recv_raw t w s =
    (case os_select w t of
       Inr b \<Rightarrow> (Inr (PyBool b), w, s)
     | Inl e \<Rightarrow>
         (case e of
            OSError n m \<Rightarrow> (Inl EOFError, w, s)
          | SelectError n \<Rightarrow> if n = EINTR then (Inr (PyBool False), w, s) else (Inr PyNone, w, s)
          | _ \<Rightarrow> (Inl e, w, s)))"
  using assms by (simp add: can_recv_raw_def connected_raw_def closed_def)

text \<open>
  C7, as the code has it. \<open>can_recv_raw\<close> on a handle whose stdout is already closed
  returns \<^verbatim>\<open>False\<close> and raises nothing: the guard on \<open>connected_raw\<close> comes before the
  readiness check. \<^verbatim>\<open>EOFError\<close> is what an \<^verbatim>\<open>OSError\<close> of the readiness check becomes, on
  a stdout that still counts as open.
\<close>

theorem can_recv_raw_closed_stream:
  "(recv_closed s \<longrightarrow> can_recv_raw t w s = (Inr (PyBool False), w, s)) \<and>
   (proc s = Some p \<and> stdout p = Some False \<and> os_select w t = Inl (OSError n m)
      \<longrightarrow> fst (can_recv_raw t w s) = Inl EOFError)"
  by (simp add: can_recv_raw_closed_eq can_recv_raw_open_eq)

theorem can_recv_raw_closed_stream_witness:
  "recv_closed recv_closed_handle \<and>
   can_recv_raw (Some 1) quiet_os recv_closed_handle
     = (Inr (PyBool False), quiet_os, recv_closed_handle) \<and>
   proc running_handle = Some running_popen \<and> stdout running_popen = Some False \<and>
   os_select ebadf_os None = Inl (OSError 9 ''Bad file descriptor'') \<and>
   fst (can_recv_raw None ebadf_os running_handle) = Inl EOFError"
proof -
  have 1: "recv_closed recv_closed_handle"
    by (simp add: recv_closed_handle_def recv_closed_def)
  have 2: "proc running_handle = Some running_popen" "stdout running_popen = Some False"
    "os_select ebadf_os None = Inl (OSError 9 ''Bad file descriptor'')"
    by (simp_all add: running_handle_def running_popen_def ebadf_os_def)
  show ?thesis
    using can_recv_raw_closed_stream [of recv_closed_handle "Some 1" quiet_os]
      can_recv_raw_closed_stream [of running_handle None ebadf_os running_popen 9
        "''Bad file descriptor''"] 1 2
    by simp
qed

text \<open>
  C7 as stated fails: on a closed stdout the call returns the boolean \<^verbatim>\<open>False\<close>.
\<close>

theorem can_recv_raw_closed_stream_counterexample:
  "recv_closed recv_closed_handle \<and>
   fst (can_recv_raw (Some 1) quiet_os recv_closed_handle) = Inr (PyBool False)"
  by (simp add: recv_closed_handle_def recv_closed_def running_handle_def
      can_recv_raw_def connected_raw_def closed_def)

lemma shutdown_recv_result:
  assumes "proc s = Some p" "stdout p = Some False" "stdin p \<noteq> None"
  shows "fst (shutdown ''recv'' w s) = Inr () \<and> recv_closed (handle (shutdown ''recv'' w s))"
proof -
  have r: "recv_closed (handle (shutdown_raw ''recv'' w s))"
    using assms by (intro shutdown_raw_recv_closes) auto
  have f: "fst (shutdown_raw ''recv'' w s) = Inr ()"
    using assms
    by (auto simp: shutdown_raw_def Let_def close_stream_if_def file_close_def closed_def
        close_fst)
  show ?thesis using r f by (simp add: shutdown_def)
qed

lemma recv_raw_ready_eq:
  assumes "proc s = Some p" "stdout p = Some False" "os_select w (timeout s) = Inr True"
  shows "recv_raw n w s =
    (let w1 = fst (Popen_poll w p); s1 = handle (poll_nonblocking w s) in
     case read_stdout n w of
       Inl e \<Rightarrow> (Inl e, w1, s1)
     | Inr d \<Rightarrow>
         if no_data d then
           (case shutdown ''recv'' w1 s1 of
              (Inl e, w4, s4) \<Rightarrow> (Inl e, w4, s4)
            | (Inr u, w4, s4) \<Rightarrow> (Inl EOFError, w4, s4))
         else (Inr (case d of None \<Rightarrow> [] | Some b \<Rightarrow> b), w1, s1))"
proof -
  have rs: "read_stdout n (fst (Popen_poll w p)) = read_stdout n w"
    by (simp add: read_stdout_def Popen_poll_os)
  have sel: "os_select (fst (Popen_poll w p)) None = Inr True" if "timeout s = None"
    using that assms(3) by (simp add: Popen_poll_os)
  show ?thesis
    using assms sel
    by (simp add: recv_raw_def poll_nonblocking_eq [OF assms(1)] handle_def Let_def
        connected_raw_def can_recv_raw_def closed_def Popen_poll_streams Popen_poll_os rs)
qed

lemma poll_nonblocking_handle_streams:
  assumes "proc s = Some p"
  shows "\<exists>q. proc (handle (poll_nonblocking w s)) = Some q \<and> stdin q = stdin p \<and>
             stdout q = stdout p \<and> stderr q = stderr p"
  by (simp add: poll_nonblocking_eq [OF assms] handle_def Popen_poll_streams)

lemma recv_raw_no_data:
  assumes "proc s = Some p" "stdout p = Some False" "stdin p \<noteq> None"
    "os_select w (timeout s) = Inr True" "read_stdout n w = Inr d" "no_data d"
  shows "fst (recv_raw n w s) = Inl EOFError \<and> recv_closed (handle (recv_raw n w s))"
proof -
  let ?w1 = "fst (Popen_poll w p)" and ?s1 = "handle (poll_nonblocking w s)"
  obtain q where q: "proc ?s1 = Some q" "stdin q = stdin p" "stdout q = stdout p"
    using poll_nonblocking_handle_streams [OF assms(1), of w] by blast
  have sh: "fst (shutdown ''recv'' ?w1 ?s1) = Inr () \<and>
            recv_closed (handle (shutdown ''recv'' ?w1 ?s1))"
    using q assms by (intro shutdown_recv_result [of ?s1 q]) auto
  obtain w4 s4 where e: "shutdown ''recv'' ?w1 ?s1 = (Inr (), w4, s4)" "recv_closed s4"
    using sh by (cases "shutdown ''recv'' ?w1 ?s1") (auto simp: handle_def)
  show ?thesis
    using assms e
    by (simp add: recv_raw_ready_eq [OF assms(1,2,4)] Let_def handle_def)
qed

lemma recv_raw_data:
  assumes "proc s = Some p" "stdout p = Some False"
    "os_select w (timeout s) = Inr True" "os_read w n = Inr (Some d)" "d \<noteq> []"
  shows "fst (recv_raw n w s) = Inr d \<and> \<not> recv_closed (handle (recv_raw n w s))"
proof -
  obtain q where q: "proc (handle (poll_nonblocking w s)) = Some q" "stdout q = stdout p"
    using poll_nonblocking_handle_streams [OF assms(1), of w] by blast
  have "\<not> recv_closed (handle (poll_nonblocking w s))"
    using q assms(2) by (simp add: recv_closed_def)
  then show ?thesis
    using assms
    by (simp add: recv_raw_ready_eq [OF assms(1,2,3)] Let_def handle_def read_stdout_def
        no_data_def)
qed

text \<open>
  C1, as the code has it. On a handle with stdout open and stdin a file object, when
  the readiness check reports data: a read that raises \<^verbatim>\<open>IOError\<close>, like one that
  returns nothing, shuts the recv direction down and raises \<^verbatim>\<open>EOFError\<close>; a read that
  returns at least one byte returns it and leaves stdout open.
\<close>

theorem recv_raw_read_error_is_EOF:
  assumes "proc s = Some p" and "stdout p = Some False" and "stdin p \<noteq> None"
    and "os_select w (timeout s) = Inr True"
  shows "(os_read w n = Inl (OSError errno strerror) \<or> os_read w n = Inr None \<or>
          os_read w n = Inr (Some [])
            \<longrightarrow> fst (recv_raw n w s) = Inl EOFError \<and> recv_closed (handle (recv_raw n w s))) \<and>
         (os_read w n = Inr (Some d) \<and> d \<noteq> []
            \<longrightarrow> fst (recv_raw n w s) = Inr d \<and> \<not> recv_closed (handle (recv_raw n w s)))"
proof -
  have a: "fst (recv_raw n w s) = Inl EOFError \<and> recv_closed (handle (recv_raw n w s))"
    if "os_read w n = Inl (OSError errno strerror) \<or> os_read w n = Inr None \<or>
        os_read w n = Inr (Some [])"
  proof -
    from that obtain x where "read_stdout n w = Inr x" "no_data x"
      by (auto simp: read_stdout_def no_data_def)
    then show ?thesis
      using recv_raw_no_data [OF assms] by blast
  qed
  show ?thesis
    using a recv_raw_data [OF assms(1,2,4)] by blast
qed

theorem recv_raw_read_error_is_EOF_witness:
  "proc running_handle = Some running_popen \<and> stdout running_popen = Some False \<and>
   stdin running_popen \<noteq> None \<and>
   os_select eio_os (timeout running_handle) = Inr True \<and>
   os_read eio_os 4096 = Inl (OSError 5 ''Input/output error'') \<and>
   fst (recv_raw 4096 eio_os running_handle) = Inl EOFError \<and>
   recv_closed (handle (recv_raw 4096 eio_os running_handle)) \<and>
   os_select quiet_os (timeout running_handle) = Inr True \<and>
   os_read quiet_os 5 = Inr (Some ''hello'') \<and> ''hello'' \<noteq> [] \<and>
   fst (recv_raw 5 quiet_os running_handle) = Inr ''hello'' \<and>
   \<not> recv_closed (handle (recv_raw 5 quiet_os running_handle))"
proof -
  have 1: "proc running_handle = Some running_popen" by (simp add: running_handle_def)
  have 2: "stdout running_popen = Some False" by (simp add: running_popen_def)
  have 3: "stdin running_popen \<noteq> None" by (simp add: running_popen_def)
  have 4: "os_select quiet_os (timeout running_handle) = Inr True" by (simp add: quiet_os_def)
  have 5: "os_read quiet_os 5 = Inr (Some ''hello'')" by (simp add: quiet_os_def)
  have 6: "os_select eio_os (timeout running_handle) = Inr True"
    by (simp add: eio_os_def quiet_os_def)
  have 7: "os_read eio_os 4096 = Inl (OSError 5 ''Input/output error'')"
    by (simp add: eio_os_def)
  show ?thesis
    using recv_raw_read_error_is_EOF [OF 1 2 3 4, of 5 0 "[]" "''hello''"]
      recv_raw_read_error_is_EOF [OF 1 2 3 6, of 4096 5 "''Input/output error''" "[]"]
      1 2 3 4 5 6 7
    by simp
qed

text \<open>
  C1 as stated fails: stdout is open and reported readable, the read raises
  \<^verbatim>\<open>IOError\<close>, and \<open>recv_raw\<close> raises \<^verbatim>\<open>EOFError\<close> with stdout closed behind it.
\<close>

theorem recv_raw_read_error_counterexample:
  "proc running_handle = Some running_popen \<and> stdout running_popen = Some False \<and>
   os_select eio_os (timeout running_handle) = Inr True \<and>
   os_read eio_os 4096 = Inl (OSError 5 ''Input/output error'') \<and>
   fst (recv_raw 4096 eio_os running_handle) = Inl EOFError \<and>
   recv_closed (handle (recv_raw 4096 eio_os running_handle))"
  by (simp add: running_handle_def running_popen_def eio_os_def quiet_os_def
      recv_raw_def poll_nonblocking_def Popen_poll_def connected_raw_def closed_def
      can_recv_raw_def read_stdout_def no_data_def shutdown_def shutdown_raw_def
      close_stream_if_def file_close_def handle_def recv_closed_def Let_def)

section \<open>NUL bytes in argv and the environment\<close>


lemma rstrip_last: "rstrip c s = [] \<or> last (rstrip c s) \<noteq> c"
proof (cases "dropWhile (\<lambda>x. x = c) (rev s)")
  case Nil
  then show ?thesis by (simp add: rstrip_def)
next
  case (Cons a as)
  then have "a \<noteq> c" using hd_dropWhile [of "\<lambda>x. x = c" "rev s"] by auto
  then show ?thesis using Cons by (simp add: rstrip_def)
qed











lemmas validate_eval =
  validate_def argv_list_def is_string_def inner_null_def chars_def NUL_def rstrip_null_def
  rstrip_def log_error_def validate_executable_def sh_fs_def sep_def path_join_def
  cwd_or_curdir_def env_or_environ_def Let_def



lemma validate_inner_env:
  "validate sh_fs None None (Scalar (Str ''sh''))
     (Some [(Str ''A'', Bytes ''x''), (Str ([NUL] @ ''B''), Str ''y'')])
   = Inl (PwnlibException (Inappropriate_null_byte_in_env_key (Str ([NUL] @ ''B''))))"
  by (simp add: validate_eval)


section \<open>Launching\<close>

lemma spawn_loop_skips:
  assumes "\<forall>c\<in>set pre. \<exists>m. Popen (fst c @ argv) (snd c) = Inl (OSError ENOEXEC m)"
    and "pre \<noteq> []"
  shows "spawn_loop Popen lg argv (pre @ rest) ex tried =
         spawn_loop Popen lg argv rest
           (case Popen (fst (last pre) @ argv) (snd (last pre)) of Inl e \<Rightarrow> Some e | Inr x \<Rightarrow> None)
           (tried @ pre)"
  using assms
proof (induction pre arbitrary: ex tried)
  case Nil
  then show ?case by simp
next
  case (Cons c pre)
  obtain prefix exe where c: "c = (prefix, exe)" by (cases c)
  obtain m where m: "Popen (prefix @ argv) exe = Inl (OSError ENOEXEC m)"
    using Cons.prems(1) c by auto
  show ?case
  proof (cases "pre = []")
    case True
    then show ?thesis by (simp add: c m)
  next
    case False
    have "\<forall>c\<in>set pre. \<exists>m. Popen (fst c @ argv) (snd c) = Inl (OSError ENOEXEC m)"
      using Cons.prems(1) by simp
    from Cons.IH [OF this False]
    show ?thesis using False by (simp add: c m)
  qed
qed

lemma spawn_loop_skips':
  assumes "\<forall>c\<in>set pre. \<exists>m. Popen (fst c @ argv) (snd c) = Inl (OSError ENOEXEC m)"
  shows "\<exists>ex'. spawn_loop Popen lg argv (pre @ rest) ex tried =
         spawn_loop Popen lg argv rest ex' (tried @ pre)"
proof (cases "pre = []")
  case True
  then show ?thesis by auto
next
  case False
  then show ?thesis using spawn_loop_skips [OF assms False] by blast
qed

text \<open>
  C2. \<open>Popen\<close> is called with the candidates in their order. Once each candidate of
  \<open>pre\<close> has failed with \<^verbatim>\<open>ENOEXEC\<close>: a next candidate that starts ends the loop with
  its process, and no later candidate is tried; a next candidate that fails otherwise
  ends the loop with that failure, raised at once; and when the last candidate fails
  with \<^verbatim>\<open>ENOEXEC\<close> too, that last error is the one raised to the caller (by the logger
  that raises again what it is handed).
\<close>

theorem spawn_tries_candidates_in_order:
  assumes "\<forall>c\<in>set pre. \<exists>m. Popen (fst c @ argv) (snd c) = Inl (OSError ENOEXEC m)"
  shows "(Popen (prefix @ argv) exe = Inr pr
            \<longrightarrow> spawn Popen lg argv (pre @ (prefix, exe) # post) = (Inr pr, pre @ [(prefix, exe)])) \<and>
         (Popen (prefix @ argv) exe = Inl e \<and> \<not> exec_format_error e
            \<longrightarrow> spawn Popen lg argv (pre @ (prefix, exe) # post) = (Inl e, pre @ [(prefix, exe)])) \<and>
         (Popen (prefix @ argv) exe = Inl (OSError ENOEXEC m)
            \<longrightarrow> spawn Popen reraise argv (pre @ [(prefix, exe)])
                = (Inl (OSError ENOEXEC m), pre @ [(prefix, exe)]))"
proof (intro conjI impI)
  assume a: "Popen (prefix @ argv) exe = Inr pr"
  obtain ex' where "spawn_loop Popen lg argv (pre @ (prefix, exe) # post) None [] =
     spawn_loop Popen lg argv ((prefix, exe) # post) ex' ([] @ pre)"
    using spawn_loop_skips' [OF assms] by blast
  then show "spawn Popen lg argv (pre @ (prefix, exe) # post) = (Inr pr, pre @ [(prefix, exe)])"
    using a by (simp add: spawn_def)
next
  assume a: "Popen (prefix @ argv) exe = Inl e \<and> \<not> exec_format_error e"
  obtain ex' where "spawn_loop Popen lg argv (pre @ (prefix, exe) # post) None [] =
     spawn_loop Popen lg argv ((prefix, exe) # post) ex' ([] @ pre)"
    using spawn_loop_skips' [OF assms] by blast
  then show "spawn Popen lg argv (pre @ (prefix, exe) # post) = (Inl e, pre @ [(prefix, exe)])"
    using a by (auto simp: spawn_def exec_format_error_def split: exc.splits)
next
  assume a: "Popen (prefix @ argv) exe = Inl (OSError ENOEXEC m)"
  have all: "\<forall>c\<in>set (pre @ [(prefix, exe)]). \<exists>m. Popen (fst c @ argv) (snd c) = Inl (OSError ENOEXEC m)"
    using assms a by auto
  have "spawn_loop Popen reraise argv ((pre @ [(prefix, exe)]) @ []) None [] =
        spawn_loop Popen reraise argv [] (Some (OSError ENOEXEC m)) ([] @ (pre @ [(prefix, exe)]))"
    using spawn_loop_skips [OF all, of reraise "[]" None "[]"] a by simp
  then show "spawn Popen reraise argv (pre @ [(prefix, exe)])
                = (Inl (OSError ENOEXEC m), pre @ [(prefix, exe)])"
    by (simp add: spawn_def candidates_exhausted_def raise_stored_def reraise_def)
qed

theorem spawn_tries_candidates_in_order_witness:
  "foreign_Popen ([] @ [''./prog'']) ''./prog'' = Inl (OSError ENOEXEC ''Exec format error'') \<and>
   foreign_Popen ([''/usr/bin/qemu-arm''] @ [''./prog'']) ''/usr/bin/qemu-arm''
     = Inr running_popen \<and>
   spawn foreign_Popen reraise [''./prog''] (prefixes ''./prog'' (Some ''/usr/bin/qemu-arm''))
     = (Inr running_popen,
        [([], ''./prog''), ([''/usr/bin/qemu-arm''], ''/usr/bin/qemu-arm'')]) \<and>
   denied_Popen ([] @ [''./prog'']) ''./prog'' = Inl (OSError 13 ''Permission denied'') \<and>
   \<not> exec_format_error (OSError 13 ''Permission denied'') \<and>
   spawn denied_Popen reraise [''./prog''] (prefixes ''./prog'' (Some ''/usr/bin/qemu-arm''))
     = (Inl (OSError 13 ''Permission denied''), [([], ''./prog'')]) \<and>
   no_emulator_Popen ([''/usr/bin/qemu-arm''] @ [''./prog'']) ''/usr/bin/qemu-arm''
     = Inl (OSError ENOEXEC ''Exec format error: qemu'') \<and>
   spawn no_emulator_Popen reraise [''./prog'']
       (prefixes ''./prog'' (Some ''/usr/bin/qemu-arm''))
     = (Inl (OSError ENOEXEC ''Exec format error: qemu''),
        [([], ''./prog''), ([''/usr/bin/qemu-arm''], ''/usr/bin/qemu-arm'')])"
proof -
  let ?argv = "[''./prog'']" and ?q = "''/usr/bin/qemu-arm''"
  have p: "prefixes ''./prog'' (Some ?q) = [([], ''./prog'')] @ ([?q], ?q) # []"
    "prefixes ''./prog'' (Some ?q) = [] @ ([], ''./prog'') # [([?q], ?q)]"
    "prefixes ''./prog'' (Some ?q) = [([], ''./prog'')] @ [([?q], ?q)]"
    by (simp_all add: prefixes_def)
  have 1: "\<forall>c\<in>set [([], ''./prog'')].
      \<exists>m. foreign_Popen (fst c @ ?argv) (snd c) = Inl (OSError ENOEXEC m)"
    by (simp add: foreign_Popen_def)
  have 2: "\<forall>c\<in>set [].
      \<exists>m. denied_Popen (fst c @ ?argv) (snd c) = Inl (OSError ENOEXEC m)"
    by simp
  have 3: "\<forall>c\<in>set [([], ''./prog'')].
      \<exists>m. no_emulator_Popen (fst c @ ?argv) (snd c) = Inl (OSError ENOEXEC m)"
    by (simp add: no_emulator_Popen_def)
  have a: "foreign_Popen ([] @ ?argv) ''./prog'' = Inl (OSError ENOEXEC ''Exec format error'')"
    "foreign_Popen ([?q] @ ?argv) ?q = Inr running_popen"
    by (simp_all add: foreign_Popen_def)
  have b: "denied_Popen ([] @ ?argv) ''./prog'' = Inl (OSError 13 ''Permission denied'')"
    "\<not> exec_format_error (OSError 13 ''Permission denied'')"
    by (simp_all add: denied_Popen_def exec_format_error_def ENOEXEC_def)
  have c: "no_emulator_Popen ([?q] @ ?argv) ?q = Inl (OSError ENOEXEC ''Exec format error: qemu'')"
    by (simp add: no_emulator_Popen_def)
  have A: "spawn foreign_Popen reraise ?argv (prefixes ''./prog'' (Some ?q))
      = (Inr running_popen, [([], ''./prog''), ([?q], ?q)])"
    using spawn_tries_candidates_in_order [OF 1, of "[?q]" ?q running_popen reraise "[]"] a(2)
    unfolding p(1) by simp
  have B: "spawn denied_Popen reraise ?argv (prefixes ''./prog'' (Some ?q))
      = (Inl (OSError 13 ''Permission denied''), [([], ''./prog'')])"
    using spawn_tries_candidates_in_order
      [OF 2, of "[]" "''./prog''" _ reraise "[([?q], ?q)]" "OSError 13 ''Permission denied''"] b
    unfolding p(2) by simp
  have C: "spawn no_emulator_Popen reraise ?argv (prefixes ''./prog'' (Some ?q))
      = (Inl (OSError ENOEXEC ''Exec format error: qemu''), [([], ''./prog''), ([?q], ?q)])"
    using spawn_tries_candidates_in_order
      [OF 3, of "[?q]" ?q _ _ _ _ "''Exec format error: qemu''"] c
    unfolding p(3) by simp
  show ?thesis
    using a b c A B C by blast
qed

section \<open>The exit notification\<close>

lemma Popen_poll_reaped:
  "returncode p \<noteq> None \<Longrightarrow> Popen_poll w p = (w, p)"
  by (simp add: Popen_poll_def)

lemma poll_nonblocking_reaped:
  assumes "proc s = Some p" "returncode p = Some rc" "stop_noticed s"
  shows "poll_nonblocking w s = (Inr (Some rc), w, s)"
  using assms by (simp add: poll_nonblocking_eq Popen_poll_reaped)

lemma poll_nonblocking_observes:
  assumes "proc s = Some p" "poll_nonblocking w s = (r, w1, s1)"
  obtains q where "r = Inr (returncode q)" "proc s1 = Some q"
    "returncode q = None \<Longrightarrow> stop_noticed s1 = stop_noticed s \<and> infos s1 = infos s"
    "\<And>rc. returncode q = Some rc \<Longrightarrow> stop_noticed s1 \<and> infos s1 = infos s @ exit_notice s rc"
    "executable s1 = executable s"
proof -
  let ?q = "snd (Popen_poll w p)"
  note e = assms(2) [unfolded poll_nonblocking_eq [OF assms(1)], simplified]
  have 1: "r = Inr (returncode ?q)" using e by simp
  have s1: "s1 = s\<lparr>proc := Some ?q,
       stop_noticed := stop_noticed s \<or> returncode ?q \<noteq> None,
       infos := infos s @ (case returncode ?q of None \<Rightarrow> []
                 | Some rc \<Rightarrow> if stop_noticed s then [] else [Stopped_with_exit_code (executable s) rc])\<rparr>"
    using e by simp
  have 2: "proc s1 = Some ?q" by (simp add: s1)
  have 3: "returncode ?q = None \<Longrightarrow> stop_noticed s1 = stop_noticed s \<and> infos s1 = infos s"
    by (simp add: s1)
  have 4: "\<And>rc. returncode ?q = Some rc \<Longrightarrow> stop_noticed s1 \<and> infos s1 = infos s @ exit_notice s rc"
    by (simp add: s1 exit_notice_def)
  have 5: "executable s1 = executable s" by (simp add: s1)
  show ?thesis using that [OF 1 2 3 4 5] .
qed

lemma wait_for_close_reaped:
  assumes "proc s = Some p" "returncode p = Some rc" "stop_noticed s"
  shows "wait_for_close w s = Some (Inr (), w, s)"
  using assms
  by (simp add: wait_for_close.simps [of w s] connected_raw_def poll_nonblocking_reaped)

lemma wait_for_close_observes:
  "wait_for_close w s = Some (x, w1, s1) \<Longrightarrow> proc s = Some p \<Longrightarrow>
   \<exists>q rc. x = Inr () \<and> proc s1 = Some q \<and> returncode q = Some rc \<and> stop_noticed s1 \<and>
          infos s1 = infos s @ exit_notice s rc"
proof (induction w s arbitrary: p rule: wait_for_close.induct)
  case (1 w s)
  obtain r w' s' where pn: "poll_nonblocking w s = (r, w', s')"
    by (cases "poll_nonblocking w s") auto
  show ?case
  proof (rule poll_nonblocking_observes [OF "1.prems"(2) pn])
    fix q
    assume q: "r = Inr (returncode q)" "proc s' = Some q"
      "returncode q = None \<Longrightarrow> stop_noticed s' = stop_noticed s \<and> infos s' = infos s"
      "\<And>rc. returncode q = Some rc \<Longrightarrow> stop_noticed s' \<and> infos s' = infos s @ exit_notice s rc"
      "executable s' = executable s"
    have cr: "connected_raw ''any'' w s = (Inr (PyBool (returncode q = None)), w', s')"
      using pn q(1) by (simp add: connected_raw_def)
    note unfold = "1.prems"(1) [unfolded wait_for_close.simps [of w s] cr]
    show ?thesis
    proof (cases "returncode q")
      case None
      then have ne: "os_waitpid w \<noteq> []" and rec: "wait_for_close w' s' = Some (x, w1, s1)"
        using unfold by (auto split: if_splits)
      have t: "truthy (PyBool (returncode q = None))" using None by simp
      from "1.IH" [OF cr [symmetric] refl refl t ne rec q(2)]
      obtain q1 rc where "x = Inr ()" "proc s1 = Some q1" "returncode q1 = Some rc"
        "stop_noticed s1" "infos s1 = infos s' @ exit_notice s' rc"
        by blast
      then show ?thesis
        using q(3) [OF None] q(5) by (auto simp: exit_notice_def)
    next
      case (Some rc)
      then have "x = Inr ()" "w1 = w'" "s1 = s'"
        using unfold by auto
      then show ?thesis
        using q(2) q(4) [OF Some] Some by auto
    qed
  qed
qed

lemma poll_reaped:
  assumes "proc s = Some p" "returncode p = Some rc" "stop_noticed s"
  shows "poll b w s = Some (Inr (Some rc), w, s)"
  using assms
  by (simp add: poll_def wait_for_close_reaped [OF assms] poll_nonblocking_reaped [OF assms])

lemma polls_reaped:
  assumes "proc s = Some p" "returncode p = Some rc" "stop_noticed s"
  shows "polls bs s = Some s"
proof (induction bs)
  case Nil
  then show ?case by simp
next
  case (Cons bw bs)
  obtain b w where "bw = (b, w)" by (cases bw)
  then show ?case
    using Cons.IH by (simp add: poll_reaped [OF assms] handle_def)
qed

lemma poll_observes:
  assumes "proc s = Some p" "poll b w s = Some (Inr (Some rc), w1, s1)"
  shows "\<exists>q. proc s1 = Some q \<and> returncode q = Some rc \<and> stop_noticed s1 \<and>
             infos s1 = infos s @ exit_notice s rc"
proof (cases b)
  case False
  then have pn: "poll_nonblocking w s = (Inr (Some rc), w1, s1)"
    using assms(2) by (simp add: poll_def)
  show ?thesis
  proof (rule poll_nonblocking_observes [OF assms(1) pn])
    fix q
    assume q: "Inr (Some rc) = Inr (returncode q)" "proc s1 = Some q"
      "\<And>rc. returncode q = Some rc \<Longrightarrow> stop_noticed s1 \<and> infos s1 = infos s @ exit_notice s rc"
    have "returncode q = Some rc" using q(1) by simp
    then show ?thesis using q(2) q(3) by blast
  qed
next
  case True
  then obtain x w' s' where wf: "wait_for_close w s = Some (x, w', s')"
    using assms(2) by (auto simp: poll_def split: option.splits)
  from wait_for_close_observes [OF wf assms(1)]
  obtain q rc' where q: "x = Inr ()" "proc s' = Some q" "returncode q = Some rc'"
    "stop_noticed s'" "infos s' = infos s @ exit_notice s rc'"
    by blast
  have "poll b w s = Some (Inr (Some rc'), w', s')"
    using True wf q(1) poll_nonblocking_reaped [OF q(2,3,4), of w'] by (simp add: poll_def)
  then have "rc = rc'" "s1 = s'" using assms(2) by simp_all
  then show ?thesis using q by blast
qed

text \<open>
  C4, as the code has it. A poll that observes an exit status leaves the flag set. If
  the flag was clear before, it emits the exit notification, once; if the flag was set
  before (by \<open>close\<close>, which reports the stop itself), it emits nothing. Every later poll,
  blocking or not and whatever the system answers, returns the same status and leaves the
  handle as it is, log included, however many polls follow.
\<close>

theorem poll_notifies_once:
  assumes "proc s = Some p" and "poll b w s = Some (Inr (Some rc), w1, s1)"
  shows "stop_noticed s1 \<and>
         (\<not> stop_noticed s \<longrightarrow> infos s1 = infos s @ [Stopped_with_exit_code (executable s) rc]) \<and>
         (stop_noticed s \<longrightarrow> infos s1 = infos s) \<and>
         poll b' w' s1 = Some (Inr (Some rc), w', s1) \<and>
         polls bs s1 = Some s1"
proof -
  from poll_observes [OF assms]
  obtain q where q: "proc s1 = Some q" "returncode q = Some rc" "stop_noticed s1"
    "infos s1 = infos s @ exit_notice s rc"
    by blast
  show ?thesis
    using q(3,4) poll_reaped [OF q(1,2,3)] polls_reaped [OF q(1,2,3)]
    by (simp add: exit_notice_def)
qed

lemma poll_exited:
  "poll True exited_os running_handle = Some (Inr (Some 0), quiet_os, exited_handle)"
  by (simp add: poll_def wait_for_close.simps connected_raw_def poll_nonblocking_def
      Popen_poll_def exited_os_def quiet_os_def running_handle_def running_popen_def
      exited_handle_def)

lemma close_killed:
  "close quiet_os running_handle = (Inr (), quiet_os, killed_handle)"
  by (simp add: close_def poll_nonblocking_def Popen_poll_def Popen_kill_def Popen_wait_def
      close_if_present_def quiet_os_def running_handle_def running_popen_def
      killed_handle_def Let_def)

theorem poll_notifies_once_witness:
  "proc running_handle = Some running_popen \<and>
   poll True exited_os running_handle = Some (Inr (Some 0), quiet_os, exited_handle) \<and>
   \<not> stop_noticed running_handle \<and> stop_noticed exited_handle \<and>
   infos exited_handle
     = infos running_handle @ [Stopped_with_exit_code (executable running_handle) 0] \<and>
   poll False exited_os exited_handle = Some (Inr (Some 0), exited_os, exited_handle) \<and>
   polls [(True, quiet_os), (False, exited_os)] exited_handle = Some exited_handle"
proof -
  have 1: "proc running_handle = Some running_popen" by (simp add: running_handle_def)
  have 2: "\<not> stop_noticed running_handle" by (simp add: running_handle_def)
  note a = poll_notifies_once [OF 1 poll_exited, of False exited_os
      "[(True, quiet_os), (False, exited_os)]"]
  have 3: "stop_noticed exited_handle" using a by blast
  have 4: "infos exited_handle
      = infos running_handle @ [Stopped_with_exit_code (executable running_handle) 0]"
    using a 2 by blast
  have 5: "poll False exited_os exited_handle = Some (Inr (Some 0), exited_os, exited_handle)"
    using a by blast
  have 6: "polls [(True, quiet_os), (False, exited_os)] exited_handle = Some exited_handle"
    using a by blast
  show ?thesis
    using 1 2 3 4 5 6 poll_exited by blast
qed

text \<open>
  C4 as stated fails after a close that had to kill the child: the poll inside that
  close still saw the child running, the close set the flag and reported the stop, and
  the first poll that observes the exit status emits no notification.
\<close>

theorem poll_after_close_counterexample:
  "poll False quiet_os running_handle = Some (Inr None, quiet_os, running_handle) \<and>
   handle (close quiet_os running_handle) = killed_handle \<and>
   poll False quiet_os killed_handle = Some (Inr (Some (- 9)), quiet_os, killed_handle) \<and>
   infos killed_handle = [Stopped_program ''/bin/cat'']"
  by (simp add: close_killed handle_def)
     (simp add: poll_def poll_nonblocking_def Popen_poll_def quiet_os_def running_handle_def
        running_popen_def killed_handle_def)

section \<open>Closing twice\<close>










section \<open>Core dumps before exec\<close>

text \<open>
  C8. Where the core-file limit may not be raised, the routine stops at that step with
  the exception: the core-dump filter is not written and the caller's hook is not run.
  Where only the filter cannot be written, the routine goes on to the hook and raises
  nothing.
\<close>

theorem preexec_fn_core_limit_is_fatal:
  "preexec_fn plain_config core_limited_child_os = ([Setrlimit_CORE], Some ValueError) \<and>
   preexec_fn plain_config no_filter_child_os
     = ([Setrlimit_CORE, Write_coredump_filter, Preexec_hook], None)"
  by (simp add: preexec_fn_def and_then_def skip_def except_pass_def plain_config_def
      core_limited_child_os_def no_filter_child_os_def willing_child_os_def)

section \<open>Leaks\<close>




section \<open>Directions\<close>

text \<open>
  C10. For every direction other than "any", "send" and "recv", \<open>connected_raw\<close> returns
  \<^verbatim>\<open>None\<close>: it raises nothing, returns no boolean, and leaves the handle as it was. The
  value is falsy, so an unrecognised direction reads as not connected.
\<close>

theorem connected_raw_unknown_direction:
  assumes "direction \<noteq> ''any''" and "direction \<noteq> ''send''" and "direction \<noteq> ''recv''"
  shows "connected_raw direction w s = (Inr PyNone, w, s) \<and> \<not> truthy PyNone"
  using assms by (simp add: connected_raw_def)

theorem connected_raw_unknown_direction_witness:
  "''both'' \<noteq> ''any'' \<and> ''both'' \<noteq> ''send'' \<and> ''both'' \<noteq> ''recv''
   \<and> connected_raw ''both'' quiet_os running_handle = (Inr PyNone, quiet_os, running_handle)
   \<and> \<not> truthy PyNone"
  using connected_raw_unknown_direction [of "''both''" quiet_os running_handle] by simp


end
